theory Spec2Isabelle
  imports Main
begin

section \<open>The drawing context\<close>

text \<open>
  \<open>Layer.render\<close> talks to a \<open>CanvasRenderingContext2D\<close> through \<open>save\<close> and
  \<open>restore\<close> only. The context is modelled by the part of its state these calls touch:
  the current transformation, the stack of states pushed by \<open>save\<close>, and, as one opaque
  component, everything else (the pixels). The type \<open>'t\<close> of transformations is left
  open: nothing in \<open>Layer.ts\<close> computes with matrices.
\<close>

record ('t, 'p) canvas =
  transform :: 't
  saved :: "'t list"
  surface :: 'p

text \<open>\<open>ctx.save()\<close>: push a copy of the current state.\<close>

definition save :: "('t, 'p) canvas \<Rightarrow> ('t, 'p) canvas" where
  "save c = c\<lparr>saved := transform c # saved c\<rparr>"

text \<open>\<open>ctx.restore()\<close>: pop the most recently pushed state and make it current; with
  nothing pushed the call does nothing.\<close>

definition restore :: "('t, 'p) canvas \<Rightarrow> ('t, 'p) canvas" where
  "restore c = (case saved c of [] \<Rightarrow> c | t # ts \<Rightarrow> c\<lparr>transform := t, saved := ts\<rparr>)"

text \<open>A JavaScript exception thrown out of a \<open>render\<close> call.\<close>

datatype error = Exception string

section \<open>Cameras\<close>

text \<open>A camera is represented by the transformation it computes from its position, zoom
  and viewport.\<close>

datatype 't camera = Camera (computed: 't)

text \<open>Modelled from the spec: \<open>Camera.applyTransform\<close> (\<open>rendering/Camera.ts\<close> is not
  among the sources). It changes the current transformation of the context in place, by
  composing the camera's transformation onto it, and touches neither the stack of saved
  states nor the surface. The composition \<open>mul\<close> of the context is a parameter.\<close>

definition applyTransform ::
  "('t \<Rightarrow> 't \<Rightarrow> 't) \<Rightarrow> 't camera \<Rightarrow> ('t, 'p) canvas \<Rightarrow> ('t, 'p) canvas" where
  "applyTransform mul k c = c\<lparr>transform := mul (transform c) (computed k)\<rparr>"

section \<open>Scene-graph nodes\<close>

text \<open>
  A child of a layer is a \<open>GameObject\<close>; some of them are layers. \<open>GameObject.ts\<close> is not
  among the sources, so for a node that is not a layer the effect of its \<open>render\<close> method
  is a parameter of the node, \<open>own_render\<close>: any function that takes the context and
  either returns or throws, leaving the context in some state in both cases. The fields
  \<open>name\<close>, \<open>active\<close>, \<open>sortingOrder\<close> and \<open>children\<close> are the inherited ones that
  \<open>Layer.ts\<close> and its documentation refer to; \<open>camera\<close> is the private field \<open>_camera\<close>.
\<close>

datatype ('t, 'p) node =
    is_GameObject: GameObject (name: string) (active: bool) (sortingOrder: int)
      (own_render: "('t, 'p) canvas \<Rightarrow> (error + unit) \<times> ('t, 'p) canvas")
  | is_Layer: Layer (name: string) (active: bool) (sortingOrder: int)
      (camera: "'t camera option") (children: "('t, 'p) node list")

text \<open>
  What a render pass did is recorded beside the context: one \<open>Call\<close> for each
  \<open>child.render(ctx)\<close> that \<open>Layer.render\<close> executes, with the child, the current
  transformation of the context at the moment of the call, and the calls made inside it.
\<close>

datatype ('t, 'p) call =
  Call (callee: "('t, 'p) node") (seen: 't) (inner: "('t, 'p) call list")

type_synonym ('t, 'p) outcome = "(error + unit) \<times> ('t, 'p) canvas \<times> ('t, 'p) call list"

definition result :: "('t, 'p) outcome \<Rightarrow> error + unit" where
  "result r = fst r"

definition canvas_of :: "('t, 'p) outcome \<Rightarrow> ('t, 'p) canvas" where
  "canvas_of r = fst (snd r)"

definition calls_of :: "('t, 'p) outcome \<Rightarrow> ('t, 'p) call list" where
  "calls_of r = snd (snd r)"

section \<open>Layer\<close>

text \<open>
  The constructor. \<open>super(name)\<close> runs the constructor of \<open>GameObject\<close>, which is not among
  the sources: \<open>base\<close> stands for it and yields the inherited fields. The second parameter
  of the constructor is optional with default \<open>null\<close>: \<open>None\<close> is the omitted argument,
  \<open>Some v\<close> the argument \<open>v\<close>.
\<close>

definition Layer_constructor ::
  "(string \<Rightarrow> string \<times> bool \<times> int \<times> ('t, 'p) node list) \<Rightarrow> string \<Rightarrow>
   't camera option option \<Rightarrow> ('t, 'p) node" where
  "Layer_constructor base nm arg =
     (case base nm of (n, a, s, cs) \<Rightarrow>
        Layer n a s (case arg of None \<Rightarrow> None | Some v \<Rightarrow> v) cs)"

text \<open>The accessors of the \<open>camera\<close> property. The setter returns the layer after the
  assignment.\<close>

fun camera_get :: "('t, 'p) node \<Rightarrow> 't camera option" where
  "camera_get (Layer n a s k cs) = k"

fun camera_set :: "'t camera option \<Rightarrow> ('t, 'p) node \<Rightarrow> ('t, 'p) node" where
  "camera_set v (Layer n a s k cs) = Layer n a s v cs"

text \<open>\<open>onRender\<close> has an empty body; it returns the layer and the context after the call.\<close>

fun onRender :: "('t, 'p) node \<Rightarrow> ('t, 'p) canvas \<Rightarrow> ('t, 'p) node \<times> ('t, 'p) canvas" where
  "onRender (Layer n a s k cs) c = (Layer n a s k cs, c)"

text \<open>
  \<open>render\<close>. For a layer this is \<open>Layer.render\<close>: return at once when inactive; otherwise
  \<open>save\<close>, apply the camera if there is one, run the loop over \<open>children\<close>, \<open>restore\<close>.
  There is no \<open>try\<close> in the method, so an exception thrown by a child leaves the loop
  and the method at that point. For any other node, \<open>child.render(ctx)\<close> dispatches to
  \<open>own_render\<close>. \<open>render_children\<close> is the \<open>for\<close> loop of lines 64 to 68.
\<close>

fun render :: "('t \<Rightarrow> 't \<Rightarrow> 't) \<Rightarrow> ('t, 'p) node \<Rightarrow> ('t, 'p) canvas \<Rightarrow> ('t, 'p) outcome"
  and render_children ::
    "('t \<Rightarrow> 't \<Rightarrow> 't) \<Rightarrow> ('t, 'p) node list \<Rightarrow> ('t, 'p) canvas \<Rightarrow> ('t, 'p) outcome" where
  "render mul (GameObject n a s d) c = (case d c of (r, c') \<Rightarrow> (r, c', []))"
| "render mul (Layer n a s k cs) c =
     (if \<not> a then (Inr (), c, [])
      else
        (case render_children mul cs
                (case k of None \<Rightarrow> save c | Some cam \<Rightarrow> applyTransform mul cam (save c)) of
           (Inl e, c', tr) \<Rightarrow> (Inl e, c', tr)
         | (Inr u, c', tr) \<Rightarrow> (Inr (), restore c', tr)))"
| "render_children mul [] c = (Inr (), c, [])"
| "render_children mul (child # rest) c =
     (if active child then
        (case render mul child c of
           (Inl e, c', sub) \<Rightarrow> (Inl e, c', [Call child (transform c) sub])
         | (Inr u, c', sub) \<Rightarrow>
             (case render_children mul rest c' of
                (r, c'', tr) \<Rightarrow> (r, c'', Call child (transform c) sub # tr)))
      else render_children mul rest c)"

section \<open>The contract of the other nodes\<close>

text \<open>
  What the theorems need of the \<open>render\<close> methods that are not in the sources is
  stated as a hypothesis on \<open>own_render\<close>: when it returns, it has left the stack of saved states
  (\<open>keeps_stack\<close>), or the current transformation (\<open>keeps_transform\<close>), as it found it.
  \<open>all_draws P\<close> says that \<open>P\<close> holds of every such method in a tree.
\<close>

definition keeps_stack :: "(('t, 'p) canvas \<Rightarrow> (error + unit) \<times> ('t, 'p) canvas) \<Rightarrow> bool" where
  "keeps_stack d \<longleftrightarrow> (\<forall>c c'. d c = (Inr (), c') \<longrightarrow> saved c' = saved c)"

definition keeps_transform ::
  "(('t, 'p) canvas \<Rightarrow> (error + unit) \<times> ('t, 'p) canvas) \<Rightarrow> bool" where
  "keeps_transform d \<longleftrightarrow> (\<forall>c c'. d c = (Inr (), c') \<longrightarrow> transform c' = transform c)"

definition balanced :: "(('t, 'p) canvas \<Rightarrow> (error + unit) \<times> ('t, 'p) canvas) \<Rightarrow> bool" where
  "balanced d \<longleftrightarrow> keeps_stack d \<and> keeps_transform d"

fun all_draws ::
  "((('t, 'p) canvas \<Rightarrow> (error + unit) \<times> ('t, 'p) canvas) \<Rightarrow> bool) \<Rightarrow> ('t, 'p) node \<Rightarrow> bool" where
  "all_draws P (GameObject n a s d) = P d"
| "all_draws P (Layer n a s k cs) = (\<forall>x \<in> set cs. all_draws P x)"

section \<open>Example scenes\<close>

text \<open>
  Concrete contexts and nodes on which the theorems below are evaluated. Transformations
  are integers composed by addition (translations along one axis); the surface counts
  the drawing operations issued. \<open>paints\<close> draws and leaves transformation and stack
  alone; \<open>nudges\<close> draws after moving the origin, without \<open>save\<close> or \<open>restore\<close>;
  \<open>pops\<close> calls \<open>restore\<close> and returns; \<open>throws\<close> fails at once.
\<close>

definition blank :: "(int, nat) canvas" where
  "blank = \<lparr>transform = 0, saved = [], surface = 0\<rparr>"

definition paints :: "(int, nat) canvas \<Rightarrow> (error + unit) \<times> (int, nat) canvas" where
  "paints c = (Inr (), c\<lparr>surface := Suc (surface c)\<rparr>)"

definition nudges :: "(int, nat) canvas \<Rightarrow> (error + unit) \<times> (int, nat) canvas" where
  "nudges c = (Inr (), c\<lparr>transform := transform c + 1, surface := Suc (surface c)\<rparr>)"

definition pops :: "(int, nat) canvas \<Rightarrow> (error + unit) \<times> (int, nat) canvas" where
  "pops c = (Inr (), restore c)"

definition throws :: "(int, nat) canvas \<Rightarrow> (error + unit) \<times> (int, nat) canvas" where
  "throws c = (Inl (Exception ''draw failed''), c)"

definition tilemap :: "(int, nat) node" where
  "tilemap = GameObject ''TileMap'' True (- 1) paints"

definition player :: "(int, nat) node" where
  "player = GameObject ''Player'' True 0 paints"

definition hud :: "(int, nat) node" where
  "hud = GameObject ''HUD'' True 0 nudges"

definition dialog :: "(int, nat) node" where
  "dialog = GameObject ''Dialog'' True 100 paints"

definition hidden :: "(int, nat) node" where
  "hidden = GameObject ''Hidden'' False 50 paints"

definition marker :: "(int, nat) node" where
  "marker = GameObject ''Marker'' True 0 paints"

definition popper :: "(int, nat) node" where
  "popper = GameObject ''Popper'' True 0 pops"

definition broken :: "(int, nat) node" where
  "broken = GameObject ''Broken'' True 0 throws"

definition background :: "(int, nat) node" where
  "background = Layer ''Background'' True (- 100) (Some (Camera 5)) [tilemap]"

definition world :: "(int, nat) node" where
  "world = Layer ''World'' True 0 (Some (Camera 5)) [tilemap, player]"

definition effects :: "(int, nat) node" where
  "effects = Layer ''Effects'' True 500 (Some (Camera 5)) [hud, player]"

definition minimap :: "(int, nat) node" where
  "minimap = Layer ''Minimap'' True 900 (Some (Camera 7)) [marker]"

definition ui :: "(int, nat) node" where
  "ui = Layer ''UI'' True 1000 None [hud, hidden, dialog]"

definition screen :: "(int, nat) node" where
  "screen = Layer ''Screen'' True 1500 None [dialog]"

definition overlay :: "(int, nat) node" where
  "overlay = Layer ''Overlay'' True 2000 None [hud, hud]"

definition faulty :: "(int, nat) node" where
  "faulty = Layer ''World'' True 0 (Some (Camera 5)) [tilemap, broken, player]"

definition leaky :: "(int, nat) node" where
  "leaky = Layer ''UI'' True 1000 None [popper]"

definition unsorted :: "(int, nat) node" where
  "unsorted = Layer ''UI'' True 1000 None [dialog, hud]"

definition stage :: "(int, nat) node" where
  "stage = Layer ''Stage'' True 0 (Some (Camera 2)) [minimap, hidden, screen, player]"

section \<open>Facts about the context operations\<close>

lemma save_fields [simp]:
  "saved (save c) = transform c # saved c"
  "transform (save c) = transform c"
  "surface (save c) = surface c"
  by (simp_all add: save_def)

lemma applyTransform_fields [simp]:
  "saved (applyTransform mul k c) = saved c"
  "transform (applyTransform mul k c) = mul (transform c) (computed k)"
  "surface (applyTransform mul k c) = surface c"
  by (simp_all add: applyTransform_def)

lemma restore_pushed:
  "saved c' = t # ts \<Longrightarrow> transform (restore c') = t \<and> saved (restore c') = ts"
  by (simp add: restore_def)

lemma outcome_parts: "r = (result r, canvas_of r, calls_of r)"
  by (simp add: result_def canvas_of_def calls_of_def)

lemma returns_parts: "result r = Inr () \<Longrightarrow> r = (Inr (), canvas_of r, calls_of r)"
  using outcome_parts [of r] by simp

section \<open>Unfolding one step of \<open>render\<close>\<close>

lemma loop_step_returns:
  assumes "render_children mul (x # xs) c = (Inr (), c', tr)" and "active x"
  obtains c1 sub tr' where "render mul x c = (Inr (), c1, sub)"
    and "render_children mul xs c1 = (Inr (), c', tr')"
    and "tr = Call x (transform c) sub # tr'"
  using assms by (simp split: prod.splits sum.splits)


lemma layer_returns:
  assumes "render mul (Layer n a s k cs) c = (Inr (), c', tr)" and a
  obtains c'' where
    "render_children mul cs
       (case k of None \<Rightarrow> save c | Some cam \<Rightarrow> applyTransform mul cam (save c)) = (Inr (), c'', tr)"
    and "c' = restore c''"
  using assms by (simp split: prod.splits sum.splits)

lemma layer_calls:
  "calls_of (render mul (Layer n True s k cs) c) =
   calls_of (render_children mul cs
      (case k of None \<Rightarrow> save c | Some cam \<Rightarrow> applyTransform mul cam (save c)))"
  by (simp add: calls_of_def split: prod.splits sum.splits)

lemma layer_result:
  "result (render mul (Layer n True s k cs) c) =
   result (render_children mul cs
      (case k of None \<Rightarrow> save c | Some cam \<Rightarrow> applyTransform mul cam (save c)))"
  by (simp add: result_def split: prod.splits sum.splits)


section \<open>The stack discipline\<close>

text \<open>A component of the context that every child leaves as it found it is left so by
  the loop.\<close>

lemma loop_keeps:
  assumes "\<And>x c c' tr. x \<in> set xs \<Longrightarrow> render mul x c = (Inr (), c', tr) \<Longrightarrow> f c' = f c"
    and "render_children mul xs c = (Inr (), c', tr)"
  shows "f c' = f c"
  using assms
proof (induction xs arbitrary: c tr)
  case Nil
  then show ?case by simp
next
  case (Cons x xs)
  have rest: "\<And>y d d' t. y \<in> set xs \<Longrightarrow> render mul y d = (Inr (), d', t) \<Longrightarrow> f d' = f d"
  proof -
    fix y d d' t
    assume "y \<in> set xs" and run: "render mul y d = (Inr (), d', t)"
    then have "y \<in> set (x # xs)" by simp
    from Cons.prems(1) [OF this run] show "f d' = f d" .
  qed
  show ?case
  proof (cases "active x")
    case False
    with Cons.prems(2) have "render_children mul xs c = (Inr (), c', tr)" by simp
    from Cons.IH [OF rest this] show ?thesis .
  next
    case True
    from Cons.prems(2) True obtain c1 sub tr' where
      r1: "render mul x c = (Inr (), c1, sub)" and r2: "render_children mul xs c1 = (Inr (), c', tr')"
      by (rule loop_step_returns)
    have "f c1 = f c" by (rule Cons.prems(1) [OF _ r1]) simp
    moreover from Cons.IH [OF rest r2] have "f c' = f c1" .
    ultimately show ?thesis by simp
  qed
qed

lemma all_draws_weaken: "all_draws balanced x \<Longrightarrow> all_draws keeps_stack x"
  by (induction x) (simp_all add: balanced_def)

lemma render_keeps_stack:
  "all_draws keeps_stack x \<Longrightarrow> render mul x c = (Inr (), c', tr) \<Longrightarrow> saved c' = saved c"
proof (induction x arbitrary: c c' tr)
  case (GameObject n a s d)
  then show ?case by (auto simp: keeps_stack_def split: prod.splits)
next
  case (Layer n a s k cs)
  show ?case
  proof (cases a)
    case False
    with Layer.prems(2) show ?thesis by simp
  next
    case True
    from Layer.prems(2) True obtain c'' where
      run: "render_children mul cs
         (case k of None \<Rightarrow> save c | Some cam \<Rightarrow> applyTransform mul cam (save c)) = (Inr (), c'', tr)"
      and c': "c' = restore c''"
      by (rule layer_returns)
    have "saved c'' =
        saved (case k of None \<Rightarrow> save c | Some cam \<Rightarrow> applyTransform mul cam (save c))"
    proof (rule loop_keeps [OF _ run])
      fix x d d' t
      assume "x \<in> set cs" and "render mul x d = (Inr (), d', t)"
      with Layer.IH Layer.prems(1) show "saved d' = saved d" by simp
    qed
    then have "saved c'' = transform c # saved c" by (simp split: option.splits)
    with c' show ?thesis by (simp add: restore_pushed)
  qed
qed

text \<open>A layer whose subtree keeps the stack gives back the transformation and the stack
  it was called with, whatever its children did to the transformation.\<close>

lemma layer_restores:
  assumes "all_draws keeps_stack (Layer n a s k cs)"
    and "render mul (Layer n a s k cs) c = (Inr (), c', tr)"
  shows "transform c' = transform c \<and> saved c' = saved c"
proof (cases a)
  case False
  with assms(2) show ?thesis by simp
next
  case True
  from assms(2) True obtain c'' where
    run: "render_children mul cs
       (case k of None \<Rightarrow> save c | Some cam \<Rightarrow> applyTransform mul cam (save c)) = (Inr (), c'', tr)"
    and c': "c' = restore c''"
    by (rule layer_returns)
  have "saved c'' =
      saved (case k of None \<Rightarrow> save c | Some cam \<Rightarrow> applyTransform mul cam (save c))"
  proof (rule loop_keeps [OF _ run])
    fix x d d' t
    assume "x \<in> set cs" and "render mul x d = (Inr (), d', t)"
    with assms(1) show "saved d' = saved d"
      using render_keeps_stack [of x mul d d' t] by simp
  qed
  then have "saved c'' = transform c # saved c" by (simp split: option.splits)
  with c' show ?thesis by (simp add: restore_pushed)
qed

lemma render_keeps_transform:
  assumes "all_draws balanced x" and "render mul x c = (Inr (), c', tr)"
  shows "transform c' = transform c"
proof (cases x)
  case (GameObject n a s d)
  with assms show ?thesis
    by (auto simp: balanced_def keeps_transform_def split: prod.splits)
next
  case (Layer n a s k cs)
  have "all_draws keeps_stack x"
    using assms(1) by (rule all_draws_weaken)
  with assms(2) show ?thesis unfolding Layer using layer_restores by blast
qed

section \<open>What the calls observe\<close>

lemma loop_seen:
  assumes "\<And>x c c' tr. x \<in> set xs \<Longrightarrow> render mul x c = (Inr (), c', tr) \<Longrightarrow>
             transform c' = transform c"
  shows "\<forall>e \<in> set (calls_of (render_children mul xs c)). seen e = transform c"
  using assms
proof (induction xs arbitrary: c)
  case Nil
  show ?case by (simp add: calls_of_def)
next
  case (Cons x xs)
  have rest: "\<And>y d d' t. y \<in> set xs \<Longrightarrow> render mul y d = (Inr (), d', t) \<Longrightarrow>
      transform d' = transform d"
  proof -
    fix y d d' t
    assume "y \<in> set xs" and run: "render mul y d = (Inr (), d', t)"
    then have "y \<in> set (x # xs)" by simp
    from Cons.prems [OF this run] show "transform d' = transform d" .
  qed
  show ?case
  proof (cases "active x")
    case False
    with Cons.IH [of c, OF rest] show ?thesis by simp
  next
    case True
    obtain r c1 sub where r1: "render mul x c = (r, c1, sub)"
      by (cases "render mul x c") auto
    show ?thesis
    proof (cases r)
      case (Inl e)
      with r1 True show ?thesis by (simp add: calls_of_def)
    next
      case (Inr u)
      with r1 have r1': "render mul x c = (Inr (), c1, sub)" by simp
      have t: "transform c1 = transform c" by (rule Cons.prems [OF _ r1']) simp
      from Cons.IH [of c1, OF rest]
      have "\<forall>e \<in> set (calls_of (render_children mul xs c1)). seen e = transform c"
        by (simp add: t)
      with r1' True show ?thesis
        by (simp add: calls_of_def split: prod.splits)
    qed
  qed
qed

lemma loop_seen_balanced:
  assumes "\<forall>x \<in> set xs. all_draws balanced x"
  shows "\<forall>e \<in> set (calls_of (render_children mul xs c)). seen e = transform c"
proof (rule loop_seen)
  fix x d d' t
  assume "x \<in> set xs" and "render mul x d = (Inr (), d', t)"
  with assms show "transform d' = transform d"
    using render_keeps_transform [of x mul d d' t] by simp
qed

text \<open>The calls made directly by a node: none for a node that is not a layer or is
  inactive; for an active layer they all observe the transformation the layer set up.\<close>

lemma node_calls_seen:
  assumes "all_draws balanced x" and "is_Layer x"
  shows "\<forall>i \<in> set (calls_of (render mul x c)).
           seen i = (case camera x of None \<Rightarrow> transform c
                     | Some cam \<Rightarrow> mul (transform c) (computed cam))"
proof (cases x)
  case (GameObject n a s d)
  with assms(2) show ?thesis by simp
next
  case (Layer n a s k cs)
  show ?thesis
  proof (cases a)
    case False
    with Layer show ?thesis by (simp add: calls_of_def)
  next
    case True
    from assms(1) Layer have bal: "\<forall>y \<in> set cs. all_draws balanced y" by simp
    from loop_seen_balanced [OF bal] Layer True show ?thesis
      by (simp add: layer_calls del: render.simps split: option.splits)
  qed
qed

lemma loop_inner_seen:
  assumes "\<forall>x \<in> set xs. all_draws balanced x"
  shows "\<forall>e \<in> set (calls_of (render_children mul xs c)). is_Layer (callee e) \<longrightarrow>
           (\<forall>i \<in> set (inner e).
              seen i = (case camera (callee e) of None \<Rightarrow> transform c
                        | Some cam \<Rightarrow> mul (transform c) (computed cam)))"
  using assms
proof (induction xs arbitrary: c)
  case Nil
  show ?case by (simp add: calls_of_def)
next
  case (Cons x xs)
  show ?case
  proof (cases "active x")
    case False
    with Cons show ?thesis by simp
  next
    case True
    obtain r c1 sub where r1: "render mul x c = (r, c1, sub)"
      by (cases "render mul x c") auto
    from Cons.prems have "all_draws balanced x" by simp
    then have here: "is_Layer x \<longrightarrow> (\<forall>i \<in> set sub.
        seen i = (case camera x of None \<Rightarrow> transform c
                  | Some cam \<Rightarrow> mul (transform c) (computed cam)))"
      using node_calls_seen [of x mul c] r1 by (simp add: calls_of_def)
    show ?thesis
    proof (cases r)
      case (Inl e)
      with r1 True here show ?thesis by (simp add: calls_of_def)
    next
      case (Inr u)
      with r1 have r1': "render mul x c = (Inr (), c1, sub)" by simp
      with Cons.prems have t: "transform c1 = transform c"
        using render_keeps_transform [of x mul c c1 sub] by simp
      have bal: "\<forall>y \<in> set xs. all_draws balanced y"
        using Cons.prems by simp
      from Cons.IH [OF bal, of c1]
      have "\<forall>e \<in> set (calls_of (render_children mul xs c1)). is_Layer (callee e) \<longrightarrow>
           (\<forall>i \<in> set (inner e).
              seen i = (case camera (callee e) of None \<Rightarrow> transform c
                        | Some cam \<Rightarrow> mul (transform c) (computed cam)))"
        unfolding t .
      with r1' True here show ?thesis
        by (simp add: calls_of_def split: prod.splits)
    qed
  qed
qed

section \<open>Which children are called\<close>

lemma loop_callees:
  "render_children mul xs c = (Inr (), c', tr) \<Longrightarrow> map callee tr = filter active xs"
proof (induction xs arbitrary: c tr)
  case Nil
  then show ?case by auto
next
  case (Cons x xs)
  show ?case
  proof (cases "active x")
    case False
    with Cons show ?thesis by simp
  next
    case True
    from Cons.prems True obtain c1 sub tr' where
      r2: "render_children mul xs c1 = (Inr (), c', tr')" and tr: "tr = Call x (transform c) sub # tr'"
      by (rule loop_step_returns)
    from Cons.IH [OF r2] tr True show ?thesis by simp
  qed
qed





section \<open>Two passes over the same tree\<close>



section \<open>Evaluating the example scenes\<close>

lemmas scene_defs =
  blank_def paints_def nudges_def throws_def
  tilemap_def player_def hud_def dialog_def hidden_def marker_def broken_def
  pops_def popper_def leaky_def unsorted_def stage_def
  background_def world_def effects_def minimap_def ui_def screen_def overlay_def faulty_def
  save_def restore_def applyTransform_def result_def canvas_of_def calls_of_def

lemma paints_balanced: "balanced paints"
  by (simp add: balanced_def keeps_stack_def keeps_transform_def paints_def)

lemma paints_keeps_stack: "keeps_stack paints"
  by (simp add: keeps_stack_def paints_def)

lemma nudges_keeps_stack: "keeps_stack nudges"
  by (simp add: keeps_stack_def nudges_def)

lemma throws_keeps_stack: "keeps_stack throws"
  by (simp add: keeps_stack_def throws_def)

lemma throws_balanced: "balanced throws"
  by (simp add: balanced_def keeps_stack_def keeps_transform_def throws_def)

section \<open>Inactive layers\<close>

text \<open>
  C4. \<open>render\<close> of an inactive layer does nothing: it returns normally, the context
  (current transformation, stack of saved states, surface) is the one it was given, so
  there is no save, no camera transformation and no restore, and no child is called,
  whatever the subtree holds.
\<close>

theorem inactive_layer_noop:
  assumes "is_Layer L" and "\<not> active L"
  shows "render mul L c = (Inr (), c, [])"
  using assms by (cases L) simp_all

theorem inactive_layer_noop_witness:
  "is_Layer (Layer ''Off'' False 0 (Some (Camera 3)) [player, world]) \<and>
   \<not> active (Layer ''Off'' False 0 (Some (Camera 3)) [player, world]) \<and>
   active player \<and> active world \<and>
   render (+) (Layer ''Off'' False 0 (Some (Camera 3)) [player, world]) blank = (Inr (), blank, [])"
  using inactive_layer_noop [of "Layer ''Off'' False 0 (Some (Camera 3)) [player, world]" "(+)" blank]
  by (simp add: player_def world_def)

section \<open>Exits of \<open>render\<close>\<close>




section \<open>What the children observe\<close>

text \<open>
  C3, amended. In an active layer with a camera, when the nodes below the layer that are
  not layers leave transformation and stack as they found them on return, every
  \<open>child.render(ctx)\<close> executed by the loop observes the transformation in effect when
  the layer's \<open>render\<close> began composed with the camera's; and when the loop runs to its
  end these calls are the calls of the active children. There is one \<open>save\<close> and one
  \<open>restore\<close> around the whole loop and none around a single child.
\<close>

theorem children_observe_camera:
  assumes "is_Layer L" and "active L" and "camera L = Some k" and "all_draws balanced L"
  shows "(\<forall>e \<in> set (calls_of (render mul L c)). seen e = mul (transform c) (computed k)) \<and>
         (result (render mul L c) = Inr () \<longrightarrow>
            map callee (calls_of (render mul L c)) = filter active (children L))"
proof -
  from assms(1,2,3) obtain n s cs where L: "L = Layer n True s (Some k) cs"
    by (cases L) auto
  let ?c = "applyTransform mul k (save c)"
  from assms(4) have bal: "\<forall>x \<in> set cs. all_draws balanced x"
    unfolding L by simp
  have calls: "calls_of (render mul L c) = calls_of (render_children mul cs ?c)"
    unfolding L by (simp add: layer_calls del: render.simps)
  have res: "result (render mul L c) = result (render_children mul cs ?c)"
    unfolding L by (simp add: layer_result del: render.simps)
  from loop_seen_balanced [OF bal, of mul ?c]
  have seen: "\<forall>e \<in> set (calls_of (render mul L c)). seen e = mul (transform c) (computed k)"
    unfolding calls by simp
  have "map callee (calls_of (render mul L c)) = filter active (children L)"
    if "result (render mul L c) = Inr ()"
  proof -
    from that have "result (render_children mul cs ?c) = Inr ()" unfolding res .
    from loop_callees [OF returns_parts [OF this]]
    have "map callee (calls_of (render_children mul cs ?c)) = filter active cs" .
    moreover have "children L = cs" unfolding L by simp
    ultimately show ?thesis unfolding calls by simp
  qed
  with seen show ?thesis by blast
qed

theorem children_observe_camera_witness:
  "is_Layer stage \<and> active stage \<and> camera stage = Some (Camera 2) \<and>
   all_draws balanced stage \<and>
   result (render (+) stage (blank\<lparr>transform := 2\<rparr>)) = Inr () \<and>
   map callee (calls_of (render (+) stage (blank\<lparr>transform := 2\<rparr>))) =
     [minimap, screen, player] \<and>
   map seen (calls_of (render (+) stage (blank\<lparr>transform := 2\<rparr>))) = [4, 4, 4]"
proof -
  have h: "is_Layer stage" "active stage" "camera stage = Some (Camera 2)"
    "all_draws balanced stage"
    by (simp_all add: scene_defs balanced_def keeps_stack_def keeps_transform_def)
  have "map callee (calls_of (render (+) stage (blank\<lparr>transform := 2\<rparr>))) =
      [minimap, screen, player]"
    and "map seen (calls_of (render (+) stage (blank\<lparr>transform := 2\<rparr>))) = [4, 4, 4]"
    and "result (render (+) stage (blank\<lparr>transform := 2\<rparr>)) = Inr ()"
    by (simp_all add: scene_defs)
  with h children_observe_camera [OF h, of "(+)" "blank\<lparr>transform := 2\<rparr>"]
  show ?thesis by simp
qed

text \<open>
  The claim without the amendment fails. \<open>effects\<close> is an active layer with the camera
  5, rendered from the transformation 0. Its first child moves the origin by 1 and
  returns without restoring it; the second child is called with the transformation 6,
  not 5.
\<close>

theorem children_observe_camera_counterexample:
  "is_Layer effects \<and> active effects \<and> camera effects = Some (Camera 5) \<and>
   transform blank = 0 \<and>
   result (render (+) effects blank) = Inr () \<and>
   calls_of (render (+) effects blank) = [Call hud 5 [], Call player 6 []]"
  by (simp add: scene_defs)

text \<open>
  C2, amended. When siblings are rendered one after the other and the loop returns, and
  the nodes that are not layers leave transformation and stack as they found them, then
  the context after the loop has the transformation and the stack it had before the
  first sibling, every sibling's \<open>render\<close> begins with that transformation, and the
  children of a sibling layer observe that transformation composed with the camera of
  their own layer when it has one, and that transformation itself when it has none. No
  layer's camera reaches a sibling or the caller.
\<close>

theorem sibling_layers_isolated:
  assumes "\<forall>l \<in> set ls. all_draws balanced l"
    and "result (render_children mul ls c) = Inr ()"
  shows "transform (canvas_of (render_children mul ls c)) = transform c \<and>
         saved (canvas_of (render_children mul ls c)) = saved c \<and>
         (\<forall>e \<in> set (calls_of (render_children mul ls c)).
            seen e = transform c \<and>
            (is_Layer (callee e) \<longrightarrow>
               (\<forall>i \<in> set (inner e).
                  seen i = (case camera (callee e) of None \<Rightarrow> transform c
                            | Some cam \<Rightarrow> mul (transform c) (computed cam)))))"
proof -
  let ?r = "render_children mul ls c"
  from returns_parts [OF assms(2)]
  have run: "render_children mul ls c = (Inr (), canvas_of ?r, calls_of ?r)" .
  have "transform (canvas_of ?r) = transform c"
  proof (rule loop_keeps [OF _ run])
    fix x d d' t
    assume "x \<in> set ls" and "render mul x d = (Inr (), d', t)"
    with assms(1) show "transform d' = transform d"
      using render_keeps_transform [of x mul d d' t] by simp
  qed
  moreover have "saved (canvas_of ?r) = saved c"
  proof (rule loop_keeps [OF _ run])
    fix x d d' t
    assume "x \<in> set ls" and "render mul x d = (Inr (), d', t)"
    with assms(1) show "saved d' = saved d"
      using render_keeps_stack [of x mul d d' t] all_draws_weaken [of x] by simp
  qed
  moreover note loop_seen_balanced [OF assms(1), of mul c] loop_inner_seen [OF assms(1), of mul c]
  ultimately show ?thesis by blast
qed

theorem sibling_layers_isolated_witness:
  "all_draws balanced background \<and> all_draws balanced world \<and>
   all_draws balanced screen \<and>
   result (render_children (+) [background, world, screen] blank) = Inr () \<and>
   canvas_of (render_children (+) [background, world, screen] blank) = blank\<lparr>surface := 4\<rparr> \<and>
   calls_of (render_children (+) [background, world, screen] blank) =
     [Call background 0 [Call tilemap 5 []],
      Call world 0 [Call tilemap 5 [], Call player 5 []],
      Call screen 0 [Call dialog 0 []]]"
  using sibling_layers_isolated [of "[background, world, screen]" "(+)" blank]
  by (simp add: scene_defs balanced_def keeps_stack_def keeps_transform_def)

text \<open>
  The claim without the amendment fails. \<open>background\<close> and \<open>world\<close>, two layers
  bound to the same camera, are rendered as siblings from the transformation 0, and the
  loop returns. The child of \<open>world\<close> observes the transformation 5 of its own layer's
  camera, not the transformation 0 that was in effect before \<open>render\<close> of
  \<open>background\<close> began.
\<close>

theorem sibling_children_counterexample:
  "result (render_children (+) [background, world] blank) = Inr () \<and>
   transform blank = 0 \<and>
   calls_of (render_children (+) [background, world] blank) =
     [Call background 0 [Call tilemap 5 []], Call world 0 [Call tilemap 5 [], Call player 5 []]]"
  by (simp add: scene_defs)

section \<open>Layers without camera\<close>

text \<open>
  C5, amended. A sequence of active layers without camera, rendered one after the other
  with every draw returning, leaves the transformation of the context as it was before
  (and the stack of saved states too), when the nodes that are not layers leave the
  stack of saved states as they found it. They may change the transformation.
\<close>

theorem screen_layers_no_net_change:
  assumes "\<forall>l \<in> set ls. is_Layer l \<and> active l \<and> camera l = None \<and> all_draws keeps_stack l"
    and "result (render_children mul ls c) = Inr ()"
  shows "transform (canvas_of (render_children mul ls c)) = transform c \<and>
         saved (canvas_of (render_children mul ls c)) = saved c"
proof -
  let ?r = "render_children mul ls c"
  from returns_parts [OF assms(2)]
  have run: "render_children mul ls c = (Inr (), canvas_of ?r, calls_of ?r)" .
  have each: "transform d' = transform d \<and> saved d' = saved d"
    if "x \<in> set ls" and "render mul x d = (Inr (), d', t)" for x d d' t
  proof -
    from that(1) assms(1) have "is_Layer x" and ks: "all_draws keeps_stack x" by simp_all
    then obtain n a s k cs where x: "x = Layer n a s k cs" by (cases x) auto
    from layer_restores [OF ks [unfolded x] that(2) [unfolded x]] show ?thesis .
  qed
  have "transform (canvas_of ?r) = transform c"
    by (rule loop_keeps [OF _ run]) (simp add: each)
  moreover have "saved (canvas_of ?r) = saved c"
    by (rule loop_keeps [OF _ run]) (simp add: each)
  ultimately show ?thesis by simp
qed

theorem screen_layers_no_net_change_witness:
  "is_Layer ui \<and> active ui \<and> camera ui = None \<and> all_draws keeps_stack ui \<and>
   is_Layer overlay \<and> active overlay \<and> camera overlay = None \<and>
   all_draws keeps_stack overlay \<and>
   result (render_children (+) [ui, overlay] blank) = Inr () \<and>
   transform (canvas_of
     (render_children (+) [ui, overlay] blank)) = 0 \<and>
   map seen (inner (calls_of
     (render_children (+) [ui, overlay] blank) ! 1)) = [0, 1]"
  using screen_layers_no_net_change [of "[ui, overlay]" "(+)" blank]
  by (simp add: scene_defs keeps_stack_def)

text \<open>
  The claim without the amendment fails. \<open>leaky\<close> is an active layer without camera
  whose one child calls \<open>restore\<close> and returns. Rendered in a context with the
  transformation 0 and one saved state 7, the child pops the state the layer saved, the
  layer's own \<open>restore\<close> pops the 7, and the sequence ends with the transformation 7.
\<close>

theorem screen_layers_counterexample:
  "is_Layer leaky \<and> active leaky \<and> camera leaky = None \<and>
   transform (blank\<lparr>saved := [7]\<rparr>) = 0 \<and>
   result (render_children (+) [leaky] (blank\<lparr>saved := [7]\<rparr>)) = Inr () \<and>
   transform (canvas_of (render_children (+) [leaky] (blank\<lparr>saved := [7]\<rparr>))) = 7 \<and>
   saved (canvas_of (render_children (+) [leaky] (blank\<lparr>saved := [7]\<rparr>))) = []"
  by (simp add: scene_defs)

section \<open>The order of traversal\<close>




section \<open>Two passes in succession\<close>




section \<open>The camera property, the draw hook, the constructor\<close>

text \<open>
  C8. Writing \<open>v\<close> to the \<open>camera\<close> property of a layer and reading the property gives
  \<open>v\<close>, for a camera as for \<open>null\<close>; the assignment changes the camera field and no other
  field of the layer.
\<close>

theorem camera_set_get:
  "camera_get (camera_set v (Layer n a s k cs)) = v \<and>
   camera_set v (Layer n a s k cs) = Layer n a s v cs \<and>
   name (camera_set v (Layer n a s k cs)) = n \<and>
   active (camera_set v (Layer n a s k cs)) = a \<and>
   sortingOrder (camera_set v (Layer n a s k cs)) = s \<and>
   children (camera_set v (Layer n a s k cs)) = cs"
  by simp

text \<open>
  C9. \<open>onRender\<close> of a layer does nothing: the context after the call is the context
  before it, surface included, and the layer is the layer before it.
\<close>

theorem onRender_noop:
  "onRender (Layer n a s k cs) c = (Layer n a s k cs, c)"
  by simp

text \<open>
  C10. A layer constructed without the camera argument has the camera property \<open>null\<close>,
  and is the layer constructed with \<open>null\<close> passed, for every name.
\<close>

theorem constructor_default_camera:
  "camera_get (Layer_constructor base nm None) = None \<and>
   Layer_constructor base nm None = Layer_constructor base nm (Some None)"
  by (simp add: Layer_constructor_def split: prod.splits)

end
